theory Spec2Isabelle
  imports Main
begin

section \<open>Data model of the watch-cycle engine (src/background/index.ts)\<close>

text \<open>
  Timestamps. The source keeps every timestamp as an ISO-8601 string and compares two of
  them only through \<^verbatim>\<open>new Date(a) > new Date(b)\<close>, that is by the instants
  (milliseconds since the Unix epoch) the strings denote. A timestamp is modelled by that
  instant; \<^verbatim>\<open>new Date(0)\<close> is the instant 0. The rendering of an instant as a
  string (\<^verbatim>\<open>toISOString\<close>) belongs to the platform and is a field of the
  environment record below.
\<close>

type_synonym timestamp = int

definition epoch :: timestamp where
  "epoch = 0"

record WatchTargetRepo =
  owner :: string
  name :: string

record Settings =
  pat :: string
  repos :: "WatchTargetRepo list"
  intervalMinutes :: int
  enableNewItems :: bool
  enableMentions :: bool
  enableMentionThreads :: bool
  enableAssigneeComments :: bool

record RuntimeState =
  viewerLogin :: "string option"
  lastCheckedAt :: "timestamp option"

definition DEFAULT_INTERVAL_MINUTES :: int where
  "DEFAULT_INTERVAL_MINUTES = 5"

datatype NotificationKind = KNew | KMention | KThread | KAssignee

text \<open>The string value of a kind, as it is interpolated into a notification id.\<close>

fun kindString :: "NotificationKind \<Rightarrow> string" where
  "kindString KNew = ''new''"
| "kindString KMention = ''mention''"
| "kindString KThread = ''thread''"
| "kindString KAssignee = ''assignee''"

text \<open>
  \<^verbatim>\<open>StoredNotification\<close>. The field \<^verbatim>\<open>id\<close> is \<open>nid\<close> here and
  \<^verbatim>\<open>owner\<close> is \<open>s_owner\<close> (the first is a constant of HOL, the second a field
  of \<open>WatchTargetRepo\<close>).
\<close>

record StoredNotification =
  nid :: string
  kind :: NotificationKind
  isPullRequest :: bool
  s_owner :: string
  repo :: string
  number :: int
  title :: string
  url :: string
  detectedAt :: timestamp

section \<open>Strings of the platform\<close>

text \<open>\<^verbatim>\<open>Array.prototype.join\<close>: the elements, with the separator between neighbours.\<close>

fun join :: "string \<Rightarrow> string list \<Rightarrow> string" where
  "join sep [] = []"
| "join sep [x] = x"
| "join sep (x # y # ys) = x @ sep @ join sep (y # ys)"

text \<open>
  \<^verbatim>\<open>String.prototype.trim\<close> removes the white space at both ends. On the byte
  strings of the model the white space characters are tab, line feed, vertical tab, form
  feed, carriage return and space.
\<close>

definition isWhiteSpace :: "char \<Rightarrow> bool" where
  "isWhiteSpace c = (c \<in> set [CHR 0x09, CHR 0x0A, CHR 0x0B, CHR 0x0C, CHR 0x0D, CHR '' ''])"

definition trim :: "string \<Rightarrow> string" where
  "trim s = rev (dropWhile isWhiteSpace (rev (dropWhile isWhiteSpace s)))"

text \<open>\<^verbatim>\<open>String.prototype.includes\<close>: the token occurs as a contiguous substring.\<close>

fun startsWith :: "string \<Rightarrow> string \<Rightarrow> bool" where
  "startsWith s [] = True"
| "startsWith [] (t # ts) = False"
| "startsWith (c # cs) (t # ts) = (c = t \<and> startsWith cs ts)"

fun includes_str :: "string \<Rightarrow> string \<Rightarrow> bool" where
  "includes_str [] tok = (tok = [])"
| "includes_str (c # cs) tok = (startsWith (c # cs) tok \<or> includes_str cs tok)"

text \<open>\<^verbatim>\<open>String(n)\<close> for an integer: its decimal numeral.\<close>

fun digitsOf :: "nat \<Rightarrow> string" where
  "digitsOf n =
     (if n < 10 then [char_of (48 + n)]
      else digitsOf (n div 10) @ [char_of (48 + n mod 10)])"

definition String_of :: "int \<Rightarrow> string" where
  "String_of i = (if i < 0 then CHR ''-'' # digitsOf (nat (- i)) else digitsOf (nat i))"

section \<open>Query Builder\<close>

definition buildRepoQuery :: "WatchTargetRepo list \<Rightarrow> string \<Rightarrow> string \<Rightarrow> string" where
  "buildRepoQuery rs lastChecked viewer =
     (let repoPart =
            (if length rs = 0 then []
             else ''('' @ join '' OR '' (map (\<lambda>r. ''repo:'' @ owner r @ ''/'' @ name r) rs) @ '')'');
          conditionPart =
            join '' OR ''
              [''created:>'' @ lastChecked, ''mentions:'' @ viewer, ''assignee:'' @ viewer]
      in trim (repoPart @ '' is:open ('' @ conditionPart @ '')''))"

section \<open>Remote item graphs\<close>

text \<open>
  The GraphQL responses are traversed untyped in the source; a field the source guards
  with \<^verbatim>\<open>??\<close>, \<^verbatim>\<open>?.\<close> or a truthiness test is an \<open>option\<close> here, with
  \<open>None\<close> for null or undefined. \<open>Node\<close> holds the fields \<^verbatim>\<open>toStored\<close> reads,
  which issues, pull requests of the search and pull requests of the thread lookup share.
\<close>

record Repository =
  repo_name :: "string option"
  owner_login :: "string option"

record Node =
  typename :: "string option"
  node_id :: "string option"
  node_number :: "int option"
  node_title :: "string option"
  node_url :: "string option"
  repository :: "Repository option"

record IssueComment =
  c_body :: "string option"
  c_createdAt :: timestamp
  c_updatedAt :: timestamp

record RawItem = Node +
  createdAt :: timestamp
  updatedAt :: timestamp
  assignees :: "string list"
  body :: "string option"
  comments :: "IssueComment list"

record ReviewComment =
  rc_id :: string
  rc_body :: "string option"
  rc_createdAt :: timestamp

record ReviewThread =
  thread_id :: string
  isResolved :: bool
  thread_comments :: "ReviewComment list"

record PullRequestNode = Node +
  reviewThreads :: "ReviewThread list"

datatype error = RemoteFailure | TypeError

section \<open>Classifier, first pass (runWatchCycle, lines 266-304)\<close>

record Classified =
  newItems :: "RawItem list"
  mentionItems :: "RawItem list"
  assigneeCommentItems :: "RawItem list"
  updatedPrIds :: "string option list"

definition noCandidates :: Classified where
  "noCandidates =
     \<lparr>newItems = [], mentionItems = [], assigneeCommentItems = [], updatedPrIds = []\<rparr>"

text \<open>One iteration of the loop over the search nodes.\<close>

definition classifyNode ::
  "Settings \<Rightarrow> string \<Rightarrow> timestamp \<Rightarrow> RawItem \<Rightarrow> Classified \<Rightarrow> Classified" where
  "classifyNode settings viewer lastChecked node acc =
     (let isNew = (lastChecked < createdAt node);
          hasAssigneeMe = list_ex (\<lambda>a. a = viewer) (assignees node);
          hasNewComment = list_ex (\<lambda>c. lastChecked < c_updatedAt c) (comments node);
          textTargets =
            body node # map (\<lambda>c. Some (case c_body c of None \<Rightarrow> [] | Some b \<Rightarrow> b)) (comments node);
          mentionToken = ''@'' @ viewer;
          hasMention =
            list_ex (\<lambda>t. case t of None \<Rightarrow> False
                         | Some b \<Rightarrow> b \<noteq> [] \<and> includes_str b mentionToken) textTargets;
          acc1 = (if enableNewItems settings \<and> isNew
                  then acc\<lparr>newItems := newItems acc @ [node]\<rparr> else acc);
          acc2 = (if enableMentions settings \<and> hasMention
                  then acc1\<lparr>mentionItems := mentionItems acc1 @ [node]\<rparr> else acc1);
          acc3 = (if enableAssigneeComments settings \<and> hasAssigneeMe \<and> hasNewComment
                  then acc2\<lparr>assigneeCommentItems := assigneeCommentItems acc2 @ [node]\<rparr>
                  else acc2);
          isPR = (typename node = Some ''PullRequest'')
      in if isPR \<and> lastChecked < updatedAt node
         then acc3\<lparr>updatedPrIds := updatedPrIds acc3 @ [node_id node]\<rparr> else acc3)"

text \<open>
  The loop. A null entry of the node list makes \<^verbatim>\<open>node.createdAt\<close> throw a
  TypeError, which ends the cycle.
\<close>

fun classifyNodes ::
  "Settings \<Rightarrow> string \<Rightarrow> timestamp \<Rightarrow> RawItem option list \<Rightarrow> Classified \<Rightarrow> error + Classified"
  where
  "classifyNodes settings viewer lastChecked [] acc = Inr acc"
| "classifyNodes settings viewer lastChecked (None # rest) acc = Inl TypeError"
| "classifyNodes settings viewer lastChecked (Some node # rest) acc =
     classifyNodes settings viewer lastChecked rest
       (classifyNode settings viewer lastChecked node acc)"

section \<open>Classifier, thread pass (runWatchCycle, lines 351-379)\<close>

record MentionThreadItem =
  item_pr :: PullRequestNode
  item_thread :: ReviewThread
  item_lastComment :: ReviewComment

text \<open>The test \<^verbatim>\<open>hadMentionBefore\<close> on the fetched comments of a thread.\<close>

definition hadMentionBefore :: "string \<Rightarrow> timestamp \<Rightarrow> ReviewComment list \<Rightarrow> bool" where
  "hadMentionBefore viewer lastChecked cs =
     (let mentionToken = ''@'' @ viewer
      in list_ex (\<lambda>c. rc_createdAt c \<le> lastChecked \<and>
                       (case rc_body c of None \<Rightarrow> False
                        | Some b \<Rightarrow> includes_str b mentionToken)) cs)"

text \<open>The inner loop over the review threads of one pull request.\<close>

fun scanThreads ::
  "string \<Rightarrow> timestamp \<Rightarrow> PullRequestNode \<Rightarrow> ReviewThread list \<Rightarrow>
   MentionThreadItem list \<Rightarrow> MentionThreadItem list" where
  "scanThreads viewer lastChecked pr [] acc = acc"
| "scanThreads viewer lastChecked pr (thread # rest) acc =
     (if isResolved thread then scanThreads viewer lastChecked pr rest acc
      else
        let cs = thread_comments thread in
        if length cs = 0 then scanThreads viewer lastChecked pr rest acc
        else
          let lastComment = cs ! (length cs - 1);
              lastCreatedAt = rc_createdAt lastComment
          in if hadMentionBefore viewer lastChecked cs \<and> lastChecked < lastCreatedAt
             then scanThreads viewer lastChecked pr rest
                    (acc @ [\<lparr>item_pr = pr, item_thread = thread, item_lastComment = lastComment\<rparr>])
             else scanThreads viewer lastChecked pr rest acc)"

text \<open>
  The outer loop over the nodes of the thread lookup. A null node makes
  \<^verbatim>\<open>pr.reviewThreads\<close> throw a TypeError.
\<close>

fun scanPullRequests ::
  "string \<Rightarrow> timestamp \<Rightarrow> PullRequestNode option list \<Rightarrow>
   MentionThreadItem list \<Rightarrow> error + MentionThreadItem list" where
  "scanPullRequests viewer lastChecked [] acc = Inr acc"
| "scanPullRequests viewer lastChecked (None # rest) acc = Inl TypeError"
| "scanPullRequests viewer lastChecked (Some pr # rest) acc =
     scanPullRequests viewer lastChecked rest
       (scanThreads viewer lastChecked pr (reviewThreads pr) acc)"

section \<open>Candidates (runWatchCycle, lines 383-431)\<close>

definition toStored ::
  "timestamp \<Rightarrow> 'a Node_scheme \<Rightarrow> NotificationKind \<Rightarrow> StoredNotification option" where
  "toStored detected node k =
     (case repository node of
        None \<Rightarrow> None
      | Some r \<Rightarrow>
          let isPR = (typename node = Some ''PullRequest'');
              ownerV = (case owner_login r of None \<Rightarrow> [] | Some l \<Rightarrow> l);
              repoV = (case repo_name r of None \<Rightarrow> [] | Some n \<Rightarrow> n);
              numberV = (case node_number node of None \<Rightarrow> 0 | Some n \<Rightarrow> n);
              titleV = (case node_title node of None \<Rightarrow> [] | Some t \<Rightarrow> t);
              urlV = (case node_url node of None \<Rightarrow> [] | Some u \<Rightarrow> u);
              nodeId = (case node_id node of
                          None \<Rightarrow> ownerV @ ''/'' @ repoV @ ''#'' @ String_of numberV
                        | Some i \<Rightarrow> i);
              idV = kindString k @ '':'' @ nodeId
          in Some \<lparr>nid = idV, kind = k, isPullRequest = isPR, s_owner = ownerV, repo = repoV,
                   number = numberV, title = titleV, url = urlV, detectedAt = detected\<rparr>)"

text \<open>The four loops that fill \<^verbatim>\<open>collected\<close>, in the order of the source.\<close>

definition collect ::
  "timestamp \<Rightarrow> Classified \<Rightarrow> MentionThreadItem list \<Rightarrow> StoredNotification list" where
  "collect detected cls mentionThreadItems =
     List.map_filter (\<lambda>n. toStored detected n KNew) (newItems cls) @
     List.map_filter (\<lambda>n. toStored detected n KMention) (mentionItems cls) @
     List.map_filter (\<lambda>n. toStored detected n KAssignee) (assigneeCommentItems cls) @
     List.map_filter (\<lambda>t. toStored detected (item_pr t) KThread) mentionThreadItems"

section \<open>Persisted state, platform and the state of the extension\<close>

text \<open>
  \<^verbatim>\<open>chrome.storage.sync\<close>: the keys of the configuration; \<open>None\<close> is a key that
  was never written, for which \<^verbatim>\<open>get\<close> returns the default of the call.
\<close>

datatype ReposValue = ReposArray "WatchTargetRepo list" | NotAnArray

record SyncStorage =
  sync_pat :: "string option"
  sync_repos :: "ReposValue option"
  sync_intervalMinutes :: "int option"
  sync_enableNewItems :: "bool option"
  sync_enableMentions :: "bool option"
  sync_enableMentionThreads :: "bool option"
  sync_enableAssigneeComments :: "bool option"

text \<open>
  \<^verbatim>\<open>chrome.storage.local\<close>, read with the defaults of the source (empty lists,
  counter 0); \<open>stored_lastCheckedAt\<close> is the key \<^verbatim>\<open>lastCheckedAt\<close>, which
  \<^verbatim>\<open>saveLastCheckedAt\<close> writes and no code reads.
\<close>

record LocalStorage =
  notifications :: "StoredNotification list"
  readNotificationIds :: "string list"
  badgeCount :: int
  stored_lastCheckedAt :: "timestamp option"

datatype RemoteCall =
    GetViewer
  | WatchIssuesAndPRs string string string
  | WatchReviewThreads "string option list" string string

text \<open>
  The platform during one cycle.
  \<^item> \<open>clockAfter k\<close> is what \<^verbatim>\<open>new Date()\<close> reads once \<open>k\<close> remote calls of the
    cycle have returned: time passes while the cycle waits for the remote API.
  \<^item> \<open>toISOString\<close> is the rendering of an instant.
  \<^item> The three responses are the answers of the remote API to the three queries
    (\<open>Inl\<close> when the call rejects).
  \<^item> \<open>storedItemsUnusable\<close> says that the callback of the merge throws when it reads what
    \<^verbatim>\<open>chrome.storage.local.get\<close> delivers: no items at all, or a persisted entry
    that is null, on which \<^verbatim>\<open>n.id\<close> is a TypeError (lines 437-441). The typed
    list of \<open>LocalStorage\<close> holds the well-formed entries only, so this is a property of
    the platform here.
\<close>

record Env =
  clockAfter :: "nat \<Rightarrow> timestamp"
  toISOString :: "timestamp \<Rightarrow> string"
  viewerResponse :: "error + string"
  searchResponse :: "string \<Rightarrow> error + RawItem option list"
  reviewResponse :: "string option list \<Rightarrow> error + PullRequestNode option list"
  storedItemsUnusable :: bool

text \<open>
  The one reading of the clock a cycle takes (line 186): before the first remote call.
\<close>

definition clock :: "Env \<Rightarrow> timestamp" where
  "clock env = clockAfter env 0"

record World =
  runtimeState :: RuntimeState
  syncStorage :: SyncStorage
  localStorage :: LocalStorage
  badgeText :: string
  badgeColor :: "string option"
  calls :: "RemoteCall list"

definition loadSettings :: "SyncStorage \<Rightarrow> Settings option" where
  "loadSettings items =
     (let patV = (case sync_pat items of None \<Rightarrow> [] | Some p \<Rightarrow> p);
          reposV = (case sync_repos items of None \<Rightarrow> ReposArray [] | Some v \<Rightarrow> v)
      in case reposV of
           NotAnArray \<Rightarrow> None
         | ReposArray rs \<Rightarrow>
             if patV = [] then None
             else Some
               \<lparr>pat = patV, repos = rs,
                intervalMinutes =
                  (case sync_intervalMinutes items of
                     None \<Rightarrow> DEFAULT_INTERVAL_MINUTES
                   | Some i \<Rightarrow> if i = 0 then DEFAULT_INTERVAL_MINUTES else i),
                enableNewItems = (case sync_enableNewItems items of None \<Rightarrow> True | Some b \<Rightarrow> b),
                enableMentions = (case sync_enableMentions items of None \<Rightarrow> True | Some b \<Rightarrow> b),
                enableMentionThreads =
                  (case sync_enableMentionThreads items of None \<Rightarrow> True | Some b \<Rightarrow> b),
                enableAssigneeComments =
                  (case sync_enableAssigneeComments items of None \<Rightarrow> True | Some b \<Rightarrow> b)\<rparr>)"

definition saveLastCheckedAt :: "timestamp \<Rightarrow> World \<Rightarrow> World" where
  "saveLastCheckedAt isoV w =
     w\<lparr>runtimeState := (runtimeState w)\<lparr>lastCheckedAt := Some isoV\<rparr>,
       localStorage := (localStorage w)\<lparr>stored_lastCheckedAt := Some isoV\<rparr>\<rparr>"

definition setBadge :: "int \<Rightarrow> World \<Rightarrow> World" where
  "setBadge count w =
     (let label = (if count > 0 then String_of count else [])
      in w\<lparr>badgeText := label,
           badgeColor := (if count > 0 then Some ''#d93025'' else badgeColor w)\<rparr>)"

definition ensureViewerLogin :: "Env \<Rightarrow> World \<Rightarrow> (error + string) \<times> World" where
  "ensureViewerLogin env w =
     (let cached = (case viewerLogin (runtimeState w) of None \<Rightarrow> [] | Some l \<Rightarrow> l)
      in if cached \<noteq> [] then (Inr cached, w)
         else
           let w1 = w\<lparr>calls := calls w @ [GetViewer]\<rparr>
           in case viewerResponse env of
                Inl e \<Rightarrow> (Inl e, w1)
              | Inr login \<Rightarrow>
                  (Inr login, w1\<lparr>runtimeState := (runtimeState w1)\<lparr>viewerLogin := Some login\<rparr>\<rparr>))"

section \<open>Notification Store: merge (runWatchCycle, lines 433-466)\<close>

text \<open>
  The loop over \<^verbatim>\<open>collected\<close>. The set \<open>existingIds\<close> is built once, before the
  loop, from the persisted list, and the loop does not add to it.
\<close>

fun mergeLoop ::
  "string set \<Rightarrow> StoredNotification list \<Rightarrow> StoredNotification list \<times> int \<Rightarrow>
   StoredNotification list \<times> int" where
  "mergeLoop existingIds [] (merged, addedCount) = (merged, addedCount)"
| "mergeLoop existingIds (n # rest) (merged, addedCount) =
     (if nid n \<notin> existingIds
      then mergeLoop existingIds rest (merged @ [n], addedCount + 1)
      else mergeLoop existingIds rest (merged, addedCount))"

text \<open>
  The merge on items that the platform delivers well-formed: the test on
  \<^verbatim>\<open>collected.length\<close> and the body of the storage callback.
\<close>

definition mergeStore :: "StoredNotification list \<Rightarrow> World \<Rightarrow> World" where
  "mergeStore collected w =
     (if length collected > 0 then
        let existing = notifications (localStorage w);
            existingIds = set (map nid existing);
            (merged, addedCount) = mergeLoop existingIds collected (existing, 0);
            newBadgeCount = badgeCount (localStorage w) + addedCount
        in setBadge newBadgeCount
             (w\<lparr>localStorage :=
                   (localStorage w)\<lparr>notifications := merged, badgeCount := newBadgeCount\<rparr>\<rparr>)
      else w)"

text \<open>
  The merge step of a cycle (lines 433-466). The storage is read only when there are
  candidates; when the callback throws on what it reads, nothing is written and the cycle
  does not get past this step.
\<close>

definition mergeStep :: "Env \<Rightarrow> StoredNotification list \<Rightarrow> World \<Rightarrow> error + World" where
  "mergeStep env collected w =
     (if length collected > 0 \<and> storedItemsUnusable env then Inl TypeError
      else Inr (mergeStore collected w))"

text \<open>The number of entries of a notification list that carry a given id.\<close>

definition occurrences :: "string \<Rightarrow> StoredNotification list \<Rightarrow> nat" where
  "occurrences i ns = length (filter (\<lambda>n. nid n = i) ns)"

section \<open>Watch-Cycle Orchestrator (runWatchCycle)\<close>

text \<open>The conditional second remote call and the thread pass (lines 307-380).\<close>

definition threadStage ::
  "Env \<Rightarrow> Settings \<Rightarrow> string \<Rightarrow> timestamp \<Rightarrow> Classified \<Rightarrow> World \<Rightarrow>
   (error + MentionThreadItem list) \<times> World" where
  "threadStage env settings viewer lastChecked cls w =
     (if enableMentionThreads settings \<and> length (updatedPrIds cls) > 0 then
        let w1 = w\<lparr>calls := calls w @
                     [WatchReviewThreads (updatedPrIds cls) (toISOString env lastChecked) viewer]\<rparr>
        in case reviewResponse env (updatedPrIds cls) of
             Inl e \<Rightarrow> (Inl e, w1)
           | Inr prs \<Rightarrow> (scanPullRequests viewer lastChecked prs [], w1)
      else (Inr [], w))"

text \<open>
  The checkpoint a cycle works with (line 187): the value of the runtime state, or the
  epoch when the runtime state holds none.
\<close>

definition checkpointOf :: "RuntimeState \<Rightarrow> timestamp" where
  "checkpointOf rs = (case lastCheckedAt rs of None \<Rightarrow> epoch | Some t \<Rightarrow> t)"

text \<open>
  One invocation: the result is \<open>Inr ()\<close> when the promise resolves and \<open>Inl e\<close> when
  it rejects, together with the state the invocation leaves behind.
\<close>

definition runWatchCycle :: "Env \<Rightarrow> World \<Rightarrow> (error + unit) \<times> World" where
  "runWatchCycle env w =
     (case loadSettings (syncStorage w) of
        None \<Rightarrow> (Inr (), w)
      | Some settings \<Rightarrow>
          if pat settings = [] \<or> length (repos settings) = 0 then (Inr (), w)
          else
            let nowIso = clock env;
                lastChecked = checkpointOf (runtimeState w)
            in (case ensureViewerLogin env w of
                  (Inl e, w1) \<Rightarrow> (Inl e, w1)
                | (Inr viewer, w1) \<Rightarrow>
                    let repoQuery =
                          buildRepoQuery (repos settings) (toISOString env lastChecked) viewer;
                        w2 = w1\<lparr>calls := calls w1 @
                                  [WatchIssuesAndPRs repoQuery (toISOString env lastChecked) viewer]\<rparr>
                    in (case searchResponse env repoQuery of
                          Inl e \<Rightarrow> (Inl e, w2)
                        | Inr issuesAndPrs \<Rightarrow>
                            (case classifyNodes settings viewer lastChecked issuesAndPrs
                                    noCandidates of
                               Inl e \<Rightarrow> (Inl e, w2)
                             | Inr cls \<Rightarrow>
                                 (case threadStage env settings viewer lastChecked cls w2 of
                                    (Inl e, w3) \<Rightarrow> (Inl e, w3)
                                  | (Inr mentionThreadItems, w3) \<Rightarrow>
                                      (case mergeStep env
                                              (collect nowIso cls mentionThreadItems) w3 of
                                         Inl e \<Rightarrow> (Inl e, w3)
                                       | Inr w4 \<Rightarrow>
                                           (Inr (), saveLastCheckedAt nowIso w4)))))))"

section \<open>Acknowledgement (popup, markAsReadAndUpdate)\<close>

text \<open>
  \<^verbatim>\<open>Array.from(new Set(xs))\<close>: the distinct elements of the list in the order of
  their first occurrence.
\<close>

fun setOrder :: "'a list \<Rightarrow> 'a list" where
  "setOrder [] = []"
| "setOrder (x # xs) = x # filter (\<lambda>y. y \<noteq> x) (setOrder xs)"

definition markAsReadAndUpdate :: "string \<Rightarrow> World \<Rightarrow> World" where
  "markAsReadAndUpdate i w =
     (let notificationsInStore = notifications (localStorage w);
          readList = readNotificationIds (localStorage w);
          readSet0 = setOrder readList;
          readSet = (if i \<notin> set readSet0 then readSet0 @ [i] else readSet0);
          remaining = filter (\<lambda>n. nid n \<notin> set readSet) notificationsInStore;
          newBadgeCount = max 0 (badgeCount (localStorage w) - 1)
      in w\<lparr>localStorage :=
             (localStorage w)\<lparr>notifications := remaining,
                               readNotificationIds := readSet,
                               badgeCount := newBadgeCount\<rparr>,
           badgeText := (if newBadgeCount > 0 then String_of newBadgeCount else [])\<rparr>)"

text \<open>A sequence of acknowledgements, one after the other.\<close>

fun acknowledgeAll :: "string list \<Rightarrow> World \<Rightarrow> World" where
  "acknowledgeAll [] w = w"
| "acknowledgeAll (i # is) w = acknowledgeAll is (markAsReadAndUpdate i w)"

section \<open>Sequences of operations on the notification store\<close>






section \<open>Example states\<close>

definition exStore :: LocalStorage where
  "exStore =
     \<lparr>notifications =
        [\<lparr>nid = ''new:I_1'', kind = KNew, isPullRequest = False, s_owner = ''octo'', repo = ''hello'',
          number = 1, title = ''First'', url = ''https://example.test/1'', detectedAt = 1704067200000\<rparr>],
      readNotificationIds = [''mention:I_0''], badgeCount = 2,
      stored_lastCheckedAt = Some 1704067200000\<rparr>"

definition exSync :: SyncStorage where
  "exSync =
     \<lparr>sync_pat = Some ''ghp_token'',
      sync_repos = Some (ReposArray [\<lparr>owner = ''octo'', name = ''hello''\<rparr>]),
      sync_intervalMinutes = None, sync_enableNewItems = None, sync_enableMentions = None,
      sync_enableMentionThreads = None, sync_enableAssigneeComments = None\<rparr>"

definition exWorld :: World where
  "exWorld =
     \<lparr>runtimeState = \<lparr>viewerLogin = Some ''me'', lastCheckedAt = Some 1704067200000\<rparr>,
      syncStorage = exSync, localStorage = exStore,
      badgeText = ''2'', badgeColor = Some ''#d93025'', calls = []\<rparr>"

definition exCandidate :: StoredNotification where
  "exCandidate =
     \<lparr>nid = ''mention:I_2'', kind = KMention, isPullRequest = False, s_owner = ''octo'',
      repo = ''hello'', number = 2, title = ''Second'', url = ''https://example.test/2'',
      detectedAt = 1704240000000\<rparr>"

text \<open>
  A pull-request node that carries the type name line 300 tests for, as a reply that
  includes \<^verbatim>\<open>__typename\<close> does; the search query does not select that field, and
  the nodes as it selects them are \<open>exFetchedPull\<close> and \<open>exFetchedIssue\<close> below.
\<close>

definition exPullRequest :: RawItem where
  "exPullRequest =
     \<lparr>typename = Some ''PullRequest'', node_id = Some ''PR_1'', node_number = Some 7,
      node_title = Some ''Change'', node_url = Some ''https://example.test/7'',
      repository = Some \<lparr>repo_name = Some ''hello'', owner_login = Some ''octo''\<rparr>,
      createdAt = 1703980800000, updatedAt = 1704153600000, assignees = [],
      body = Some ''A change'', comments = []\<rparr>"

definition exThread :: "string \<Rightarrow> ReviewThread" where
  "exThread i =
     \<lparr>thread_id = i, isResolved = False,
      thread_comments =
        [\<lparr>rc_id = i @ ''_c1'', rc_body = Some ''please look @me'', rc_createdAt = 1703984400000\<rparr>,
         \<lparr>rc_id = i @ ''_c2'', rc_body = Some ''done'', rc_createdAt = 1704150000000\<rparr>]\<rparr>"

definition exReviewNode :: PullRequestNode where
  "exReviewNode =
     \<lparr>typename = None, node_id = Some ''PR_1'', node_number = Some 7,
      node_title = Some ''Change'', node_url = Some ''https://example.test/7'',
      repository = Some \<lparr>repo_name = Some ''hello'', owner_login = Some ''octo''\<rparr>,
      reviewThreads = [exThread ''T1'', exThread ''T2'']\<rparr>"

definition exEnv :: Env where
  "exEnv =
     \<lparr>clockAfter = (\<lambda>k. 1704240000000 + 1000 * int k),
      toISOString = (\<lambda>t. if t = 0 then ''1970-01-01T00:00:00.000Z''
                         else if t = 1704067200000 then ''2024-01-01T00:00:00.000Z''
                         else String_of t),
      viewerResponse = Inr ''me'',
      searchResponse = (\<lambda>q. Inr [Some exPullRequest]),
      reviewResponse = (\<lambda>ids. Inr [Some exReviewNode]),
      storedItemsUnusable = False\<rparr>"

definition exIssue :: RawItem where
  "exIssue =
     \<lparr>typename = Some ''Issue'', node_id = Some ''I_2'', node_number = Some 2,
      node_title = Some ''Second'', node_url = Some ''https://example.test/2'',
      repository = Some \<lparr>repo_name = Some ''hello'', owner_login = Some ''octo''\<rparr>,
      createdAt = 1704153600000, updatedAt = 1704153600000, assignees = [],
      body = Some ''Something is off'', comments = []\<rparr>"

definition exSettings :: Settings where
  "exSettings =
     \<lparr>pat = ''ghp_token'', repos = [\<lparr>owner = ''octo'', name = ''hello''\<rparr>],
      intervalMinutes = 5, enableNewItems = True, enableMentions = True,
      enableMentionThreads = True, enableAssigneeComments = True\<rparr>"

definition exThreadItem :: "string \<Rightarrow> MentionThreadItem" where
  "exThreadItem i =
     \<lparr>item_pr = exReviewNode, item_thread = exThread i,
      item_lastComment = \<lparr>rc_id = i @ ''_c2'', rc_body = Some ''done'', rc_createdAt = 1704150000000\<rparr>\<rparr>"

definition exEnvFailing :: Env where
  "exEnvFailing = exEnv\<lparr>searchResponse := (\<lambda>q. Inl RemoteFailure)\<rparr>"

text \<open>
  Search nodes as the \<^verbatim>\<open>WatchIssuesAndPRs\<close> query selects them: the query does not ask
  for \<^verbatim>\<open>__typename\<close>, so the nodes carry none.
\<close>

definition exFetchedIssue :: RawItem where
  "exFetchedIssue = exIssue\<lparr>typename := None, body := Some ''cc @me, please look''\<rparr>"

definition exFetchedPull :: RawItem where
  "exFetchedPull = exPullRequest\<lparr>typename := None\<rparr>"

definition exEnvSelected :: Env where
  "exEnvSelected = exEnv\<lparr>searchResponse := (\<lambda>q. Inr [Some exFetchedPull, Some exFetchedIssue])\<rparr>"

definition exEnvClockBehind :: Env where
  "exEnvClockBehind = exEnvSelected\<lparr>clockAfter := (\<lambda>k. 1000 + int k)\<rparr>"

definition exEnvMergeFails :: Env where
  "exEnvMergeFails = exEnvSelected\<lparr>storedItemsUnusable := True\<rparr>"

definition exWorldNoRepos :: World where
  "exWorldNoRepos = exWorld\<lparr>syncStorage := exSync\<lparr>sync_repos := Some (ReposArray [])\<rparr>\<rparr>"

definition exWorldRestarted :: World where
  "exWorldRestarted = exWorld\<lparr>runtimeState := \<lparr>viewerLogin = None, lastCheckedAt = None\<rparr>\<rparr>"

section \<open>Properties of the Query Builder\<close>

lemma trim_unchanged:
  assumes "s \<noteq> []" and "\<not> isWhiteSpace (hd s)" and "\<not> isWhiteSpace (last s)"
  shows "trim s = s"
proof -
  from assms have a: "dropWhile isWhiteSpace s = s"
    by (cases s) simp_all
  from assms have b: "dropWhile isWhiteSpace (rev s) = rev s"
    by (cases s rule: rev_cases) simp_all
  show ?thesis
    by (simp add: trim_def a b)
qed

lemma buildRepoQuery_nonempty:
  assumes "rs \<noteq> []"
  shows "buildRepoQuery rs c v =
     ''('' @ join '' OR '' (map (\<lambda>r. ''repo:'' @ owner r @ ''/'' @ name r) rs) @
     '') is:open (created:>'' @ c @ '' OR mentions:'' @ v @ '' OR assignee:'' @ v @ '')''"
proof -
  let ?q = "''('' @ join '' OR '' (map (\<lambda>r. ''repo:'' @ owner r @ ''/'' @ name r) rs) @
     '') is:open (created:>'' @ c @ '' OR mentions:'' @ v @ '' OR assignee:'' @ v @ '')''"
  have "trim ?q = ?q"
    by (rule trim_unchanged) (simp_all add: isWhiteSpace_def)
  with assms show ?thesis
    by (simp add: buildRepoQuery_def)
qed

lemma buildRepoQuery_empty:
  "buildRepoQuery [] c v =
     ''is:open (created:>'' @ c @ '' OR mentions:'' @ v @ '' OR assignee:'' @ v @ '')''"
  by (simp add: buildRepoQuery_def trim_def isWhiteSpace_def)

text \<open>
  Claim C7. For a non-empty repo list \<^verbatim>\<open>buildRepoQuery\<close> returns the parenthesised
  disjunction of the \<^verbatim>\<open>repo:owner/name\<close> terms, then \<^verbatim>\<open>is:open\<close>, then the
  parenthesised disjunction of the three conditions; for the empty list it returns the
  same string without the repo clause and without a leading space; in every case the query
  ends with the open-items restriction and the three conditions joined by OR.
\<close>

theorem buildRepoQuery_shape:
  "(rs \<noteq> [] \<longrightarrow>
      buildRepoQuery rs c v =
        ''('' @ join '' OR '' (map (\<lambda>r. ''repo:'' @ owner r @ ''/'' @ name r) rs) @
        '') is:open (created:>'' @ c @ '' OR mentions:'' @ v @ '' OR assignee:'' @ v @ '')'') \<and>
   buildRepoQuery [] c v =
     ''is:open (created:>'' @ c @ '' OR mentions:'' @ v @ '' OR assignee:'' @ v @ '')'' \<and>
   (\<exists>scope. buildRepoQuery rs c v =
      scope @ ''is:open (created:>'' @ c @ '' OR mentions:'' @ v @ '' OR assignee:'' @ v @ '')'')"
proof (intro conjI impI)
  assume "rs \<noteq> []"
  then show "buildRepoQuery rs c v =
        ''('' @ join '' OR '' (map (\<lambda>r. ''repo:'' @ owner r @ ''/'' @ name r) rs) @
        '') is:open (created:>'' @ c @ '' OR mentions:'' @ v @ '' OR assignee:'' @ v @ '')''"
    by (rule buildRepoQuery_nonempty)
next
  show "buildRepoQuery [] c v =
     ''is:open (created:>'' @ c @ '' OR mentions:'' @ v @ '' OR assignee:'' @ v @ '')''"
    by (rule buildRepoQuery_empty)
next
  show "\<exists>scope. buildRepoQuery rs c v =
      scope @ ''is:open (created:>'' @ c @ '' OR mentions:'' @ v @ '' OR assignee:'' @ v @ '')''"
  proof (cases "rs = []")
    case True
    then show ?thesis
      using buildRepoQuery_empty [of c v] by (intro exI [of _ "[]"]) simp
  next
    case False
    then show ?thesis
      using buildRepoQuery_nonempty [of rs c v]
      by (intro exI [of _ "''('' @ join '' OR '' (map (\<lambda>r. ''repo:'' @ owner r @ ''/'' @ name r) rs) @ '') ''"]) simp
  qed
qed

theorem buildRepoQuery_shape_witness:
  "[\<lparr>owner = ''o1'', name = ''n1''\<rparr>, \<lparr>owner = ''o2'', name = ''n2''\<rparr>] \<noteq> [] \<and>
   buildRepoQuery [\<lparr>owner = ''o1'', name = ''n1''\<rparr>, \<lparr>owner = ''o2'', name = ''n2''\<rparr>]
     ''2024-01-01T00:00:00.000Z'' ''me'' =
   ''(repo:o1/n1 OR repo:o2/n2) is:open (created:>2024-01-01T00:00:00.000Z OR mentions:me OR assignee:me)''"
  using buildRepoQuery_shape [of "[\<lparr>owner = ''o1'', name = ''n1''\<rparr>, \<lparr>owner = ''o2'', name = ''n2''\<rparr>]"
      "''2024-01-01T00:00:00.000Z''" "''me''"]
  by simp

section \<open>Properties of the acknowledgement\<close>

lemma markAsReadAndUpdate_badge:
  "badgeCount (localStorage (markAsReadAndUpdate i w)) = max 0 (badgeCount (localStorage w) - 1)"
  by (simp add: markAsReadAndUpdate_def Let_def)

lemma acknowledgeAll_badge_nonneg:
  "0 \<le> badgeCount (localStorage w) \<Longrightarrow> 0 \<le> badgeCount (localStorage (acknowledgeAll ids w))"
  by (induction ids arbitrary: w) (simp_all add: markAsReadAndUpdate_badge)

text \<open>
  Claim C9. From a non-negative badge counter, the counter stored after each operation of
  any sequence of acknowledgements (any ids, in any order, with repetitions) is at least 0.
\<close>

theorem badge_floor:
  assumes "0 \<le> badgeCount (localStorage w)" and "k \<le> length ids"
  shows "0 \<le> badgeCount (localStorage (acknowledgeAll (take k ids) w))"
  using assms(1) by (rule acknowledgeAll_badge_nonneg)

theorem badge_floor_witness:
  "0 \<le> badgeCount (localStorage exWorld) \<and> (3::nat) \<le> length [''new:I_1'', ''new:I_1'', ''mention:I_0''] \<and>
   badgeCount (localStorage (acknowledgeAll (take 3 [''new:I_1'', ''new:I_1'', ''mention:I_0'']) exWorld)) = 0"
proof -
  have a: "0 \<le> badgeCount (localStorage exWorld)"
    by (simp add: exWorld_def exStore_def)
  have b: "(3::nat) \<le> length [''new:I_1'', ''new:I_1'', ''mention:I_0'']"
    by simp
  have c: "badgeCount (localStorage (acknowledgeAll (take 3 [''new:I_1'', ''new:I_1'', ''mention:I_0'']) exWorld)) \<le> 0"
    by (simp add: exWorld_def exStore_def markAsReadAndUpdate_badge)
  from badge_floor [OF a b] a b c show ?thesis
    by simp
qed

lemma set_setOrder: "set (setOrder xs) = set xs"
  by (induction xs) auto

text \<open>
  Claim C2 says that acknowledging an id that is already in the read-id set leaves the
  badge counter unchanged. \<^verbatim>\<open>markAsReadAndUpdate\<close> tests the membership only to
  decide whether the id is added to the read-id set; the counter is decremented in either
  case, as its documentation lists. With the id in the read-id set and the counter at 2,
  the counter stored is 1.
\<close>

theorem reacknowledge_decrements_counterexample:
  "''mention:I_0'' \<in> set (readNotificationIds (localStorage exWorld)) \<and>
   badgeCount (localStorage exWorld) = 2 \<and>
   badgeCount (localStorage (markAsReadAndUpdate ''mention:I_0'' exWorld)) = 1"
  by (simp add: exWorld_def exStore_def markAsReadAndUpdate_def)

text \<open>
  Claim C2, amended. For an id that is already in the read-id set,
  \<^verbatim>\<open>markAsReadAndUpdate\<close> leaves the read-id set unchanged and stores
  \<open>max 0 (badge - 1)\<close>: a positive counter is decremented by 1 again, and the counter
  is unchanged exactly when it is 0.
\<close>

theorem reacknowledge_badge:
  assumes "i \<in> set (readNotificationIds (localStorage w))"
  shows "badgeCount (localStorage (markAsReadAndUpdate i w)) = max 0 (badgeCount (localStorage w) - 1) \<and>
         set (readNotificationIds (localStorage (markAsReadAndUpdate i w))) =
           set (readNotificationIds (localStorage w)) \<and>
         (0 < badgeCount (localStorage w) \<longrightarrow>
            badgeCount (localStorage (markAsReadAndUpdate i w)) = badgeCount (localStorage w) - 1) \<and>
         (badgeCount (localStorage (markAsReadAndUpdate i w)) = badgeCount (localStorage w) \<longleftrightarrow>
            badgeCount (localStorage w) = 0)"
  using assms by (auto simp add: markAsReadAndUpdate_def Let_def set_setOrder)

theorem reacknowledge_badge_witness:
  "''mention:I_0'' \<in> set (readNotificationIds (localStorage exWorld)) \<and>
   badgeCount (localStorage (markAsReadAndUpdate ''mention:I_0'' exWorld)) = max 0 (2 - 1)"
proof -
  have a: "''mention:I_0'' \<in> set (readNotificationIds (localStorage exWorld))"
    by (simp add: exWorld_def exStore_def)
  have b: "badgeCount (localStorage exWorld) = 2"
    by (simp add: exWorld_def exStore_def)
  from reacknowledge_badge [OF a] a b show ?thesis
    by simp
qed

section \<open>Properties of the merge\<close>

lemma mergeLoop_eq:
  "mergeLoop E cs (merged, added) =
     (merged @ filter (\<lambda>n. nid n \<notin> E) cs, added + int (length (filter (\<lambda>n. nid n \<notin> E) cs)))"
  by (induction cs arbitrary: merged added) simp_all

lemma notifications_mergeStore:
  "notifications (localStorage (mergeStore cs w)) =
     notifications (localStorage w) @
     filter (\<lambda>n. nid n \<notin> nid ` set (notifications (localStorage w))) cs"
  by (cases cs) (simp_all add: mergeStore_def mergeLoop_eq setBadge_def Let_def del: mergeLoop.simps)

lemma badgeCount_mergeStore:
  "badgeCount (localStorage (mergeStore cs w)) =
     badgeCount (localStorage w) +
     int (length (filter (\<lambda>n. nid n \<notin> nid ` set (notifications (localStorage w))) cs))"
  by (cases cs) (simp_all add: mergeStore_def mergeLoop_eq setBadge_def Let_def del: mergeLoop.simps)

lemma occurrences_append: "occurrences i (xs @ ys) = occurrences i xs + occurrences i ys"
  by (simp add: occurrences_def)

lemma occurrences_filter_le: "occurrences i (filter P xs) \<le> occurrences i xs"
  by (induction xs) (simp_all add: occurrences_def)

lemma occurrences_zero: "i \<notin> nid ` set xs \<Longrightarrow> occurrences i xs = 0"
  by (induction xs) (auto simp add: occurrences_def)

lemma merged_candidate_present:
  assumes "c \<in> set cs"
  shows "nid c \<in> nid ` set (notifications (localStorage (mergeStore cs w)))"
  using assms by (auto simp add: notifications_mergeStore)

lemma occurrences_unknown_only:
  "i \<in> E \<Longrightarrow> occurrences i (filter (\<lambda>n. nid n \<notin> E) cs) = 0"
  by (induction cs) (auto simp add: occurrences_def)

lemma second_merge_skips:
  assumes "i \<in> nid ` set (notifications (localStorage w))"
  shows "occurrences i (notifications (localStorage (mergeStore cs w))) =
         occurrences i (notifications (localStorage w))"
  using assms by (simp add: notifications_mergeStore occurrences_append occurrences_unknown_only)

lemma all_known_merge_noop:
  assumes "\<forall>c\<in>set cs. nid c \<in> nid ` set (notifications (localStorage w))"
  shows "notifications (localStorage (mergeStore cs w)) = notifications (localStorage w)"
    and "badgeCount (localStorage (mergeStore cs w)) = badgeCount (localStorage w)"
proof -
  from assms have "filter (\<lambda>n. nid n \<notin> nid ` set (notifications (localStorage w))) cs = []"
    by (induction cs) auto
  then show "notifications (localStorage (mergeStore cs w)) = notifications (localStorage w)"
    and "badgeCount (localStorage (mergeStore cs w)) = badgeCount (localStorage w)"
    by (simp_all add: notifications_mergeStore badgeCount_mergeStore)
qed

text \<open>
  Claim C4. Let a first merge hold a candidate \<open>c1\<close> and a second merge hold a candidate
  with the same id. The second merge appends no entry with that id. When the first merge
  holds that id once, the two merges together add at most one entry with that id; the badge
  counter grows by exactly the number of appended entries, so by at most 1 for that id. In
  particular, merging one candidate and then candidates of the same id again leaves list and
  counter as the first merge left them, at most 1 above their values before.
\<close>

theorem merge_idempotent:
  assumes "c1 \<in> set cs1" and "c2 \<in> set cs2" and "nid c2 = nid c1"
  shows "occurrences (nid c1) (notifications (localStorage (mergeStore cs2 (mergeStore cs1 w)))) =
           occurrences (nid c1) (notifications (localStorage (mergeStore cs1 w))) \<and>
         (occurrences (nid c1) cs1 = 1 \<longrightarrow>
            occurrences (nid c1) (notifications (localStorage (mergeStore cs2 (mergeStore cs1 w))))
              \<le> occurrences (nid c1) (notifications (localStorage w)) + 1) \<and>
         badgeCount (localStorage (mergeStore cs2 (mergeStore cs1 w))) - badgeCount (localStorage w) =
           int (length (notifications (localStorage (mergeStore cs2 (mergeStore cs1 w))))) -
           int (length (notifications (localStorage w))) \<and>
         (cs1 = [c1] \<and> (\<forall>c\<in>set cs2. nid c = nid c1) \<longrightarrow>
            notifications (localStorage (mergeStore cs2 (mergeStore cs1 w))) =
              notifications (localStorage (mergeStore cs1 w)) \<and>
            badgeCount (localStorage (mergeStore cs2 (mergeStore cs1 w))) =
              badgeCount (localStorage (mergeStore cs1 w)) \<and>
            length (notifications (localStorage (mergeStore cs2 (mergeStore cs1 w))))
              \<le> length (notifications (localStorage w)) + 1 \<and>
            badgeCount (localStorage (mergeStore cs2 (mergeStore cs1 w)))
              \<le> badgeCount (localStorage w) + 1)"
proof (intro conjI impI)
  let ?w1 = "mergeStore cs1 w"
  let ?w2 = "mergeStore cs2 ?w1"
  have present: "nid c1 \<in> nid ` set (notifications (localStorage ?w1))"
    using assms(1) by (rule merged_candidate_present)
  show skip: "occurrences (nid c1) (notifications (localStorage ?w2)) =
      occurrences (nid c1) (notifications (localStorage ?w1))"
    using present by (rule second_merge_skips)
  show "badgeCount (localStorage ?w2) - badgeCount (localStorage w) =
      int (length (notifications (localStorage ?w2))) - int (length (notifications (localStorage w)))"
    by (simp add: notifications_mergeStore badgeCount_mergeStore)
  {
    assume once: "occurrences (nid c1) cs1 = 1"
    have "occurrences (nid c1) (notifications (localStorage ?w1)) \<le>
        occurrences (nid c1) (notifications (localStorage w)) + occurrences (nid c1) cs1"
      by (simp add: notifications_mergeStore occurrences_append occurrences_filter_le)
    with once skip
    show "occurrences (nid c1) (notifications (localStorage ?w2))
        \<le> occurrences (nid c1) (notifications (localStorage w)) + 1"
      by simp
  }
  {
    assume single: "cs1 = [c1] \<and> (\<forall>c\<in>set cs2. nid c = nid c1)"
    then have known: "\<forall>c\<in>set cs2. nid c \<in> nid ` set (notifications (localStorage ?w1))"
      using present by simp
    show same: "notifications (localStorage ?w2) = notifications (localStorage ?w1)"
      using known by (rule all_known_merge_noop(1))
    show sameb: "badgeCount (localStorage ?w2) = badgeCount (localStorage ?w1)"
      using known by (rule all_known_merge_noop(2))
    from single have l1: "length (notifications (localStorage ?w1)) \<le> length (notifications (localStorage w)) + 1"
      by (simp add: notifications_mergeStore)
    from single have b1: "badgeCount (localStorage ?w1) \<le> badgeCount (localStorage w) + 1"
      by (simp add: badgeCount_mergeStore)
    show "length (notifications (localStorage ?w2)) \<le> length (notifications (localStorage w)) + 1"
      using same l1 by simp
    show "badgeCount (localStorage ?w2) \<le> badgeCount (localStorage w) + 1"
      using sameb b1 by simp
  }
qed


theorem merge_idempotent_witness:
  "exCandidate \<in> set [exCandidate] \<and> nid exCandidate = nid exCandidate \<and>
   occurrences (nid exCandidate) [exCandidate] = 1 \<and>
   notifications (localStorage (mergeStore [exCandidate] (mergeStore [exCandidate] exWorld))) =
     notifications (localStorage (mergeStore [exCandidate] exWorld)) \<and>
   length (notifications (localStorage (mergeStore [exCandidate] (mergeStore [exCandidate] exWorld))))
     \<le> length (notifications (localStorage exWorld)) + 1 \<and>
   badgeCount (localStorage (mergeStore [exCandidate] (mergeStore [exCandidate] exWorld)))
     \<le> badgeCount (localStorage exWorld) + 1"
proof -
  have h1: "exCandidate \<in> set [exCandidate]"
    by simp
  have h2: "nid exCandidate = nid exCandidate"
    by simp
  have h3: "occurrences (nid exCandidate) [exCandidate] = 1"
    by (simp add: occurrences_def)
  have h4: "\<forall>c\<in>set [exCandidate]. nid c = nid exCandidate"
    by simp
  have h5: "[exCandidate] = [exCandidate]"
    by simp
  from merge_idempotent [OF h1 h1 h2, of exWorld] h1 h2 h3 h4 h5 show ?thesis
    by blast
qed



section \<open>Properties of the classifier\<close>

lemma startsWith_iff: "startsWith s t \<longleftrightarrow> (\<exists>r. s = t @ r)"
  by (induction s t rule: startsWith.induct) auto

lemma includes_str_iff: "includes_str s t \<longleftrightarrow> (\<exists>p r. s = p @ t @ r)"
proof (induction s)
  case Nil
  then show ?case by auto
next
  case (Cons c cs)
  show ?case
  proof
    assume "includes_str (c # cs) t"
    then consider "startsWith (c # cs) t" | "includes_str cs t"
      by auto
    then show "\<exists>p r. c # cs = p @ t @ r"
    proof cases
      case 1
      then obtain r where "c # cs = t @ r"
        by (auto simp add: startsWith_iff)
      then have "c # cs = [] @ t @ r"
        by simp
      then show ?thesis
        by blast
    next
      case 2
      with Cons.IH obtain p r where "cs = p @ t @ r"
        by auto
      then have "c # cs = (c # p) @ t @ r"
        by simp
      then show ?thesis
        by blast
    qed
  next
    assume "\<exists>p r. c # cs = p @ t @ r"
    then obtain p r where eq: "c # cs = p @ t @ r"
      by auto
    show "includes_str (c # cs) t"
    proof (cases p)
      case Nil
      with eq have "startsWith (c # cs) t"
        by (auto simp add: startsWith_iff)
      then show ?thesis
        by simp
    next
      case (Cons a p')
      with eq have "cs = p' @ t @ r"
        by simp
      with Cons.IH have "includes_str cs t"
        by auto
      then show ?thesis
        by simp
    qed
  qed
qed

lemma newItems_classifyNode:
  "newItems (classifyNode settings viewer cp node acc) =
     newItems acc @ (if enableNewItems settings \<and> cp < createdAt node then [node] else [])"
  by (simp add: classifyNode_def Let_def)

lemma newItems_classifyNodes:
  assumes "classifyNodes settings viewer cp nodes acc = Inr cls"
  shows "newItems cls =
           newItems acc @ filter (\<lambda>n. enableNewItems settings \<and> cp < createdAt n) (map the nodes) \<and>
         None \<notin> set nodes"
  using assms
proof (induction settings viewer cp nodes acc rule: classifyNodes.induct)
  case (1 settings viewer lastChecked acc)
  then show ?case by simp
next
  case (2 settings viewer lastChecked rest acc)
  then show ?case by simp
next
  case (3 settings viewer lastChecked node rest acc)
  then show ?case
    by (simp add: newItems_classifyNode)
qed

lemma Some_in_set_iff: "None \<notin> set xs \<Longrightarrow> x \<in> set (map the xs) \<longleftrightarrow> Some x \<in> set xs"
  by (induction xs) auto

lemma kind_toStored: "toStored d node k = Some s \<Longrightarrow> kind s = k"
  by (auto simp add: toStored_def Let_def split: option.splits)

lemma nid_toStored:
  "toStored d node k = Some s \<Longrightarrow> node_id node = Some i \<Longrightarrow> nid s = kindString k @ '':'' @ i"
  by (auto simp add: toStored_def Let_def split: option.splits)

lemma filter_kind_map_filter:
  "filter (\<lambda>s. kind s = k') (List.map_filter (\<lambda>x. toStored d (f x) k) xs) =
     (if k = k' then List.map_filter (\<lambda>x. toStored d (f x) k) xs else [])"
proof (induction xs)
  case Nil
  then show ?case by simp
next
  case (Cons x xs)
  then show ?case
    by (cases "toStored d (f x) k") (auto dest: kind_toStored)
qed

lemma new_candidates_collect:
  "filter (\<lambda>s. kind s = KNew) (collect d cls items) =
     List.map_filter (\<lambda>n. toStored d n KNew) (newItems cls)"
  using filter_kind_map_filter [of KNew d "\<lambda>n. n" KNew "newItems cls"]
    filter_kind_map_filter [of KNew d "\<lambda>n. n" KMention "mentionItems cls"]
    filter_kind_map_filter [of KNew d "\<lambda>n. n" KAssignee "assigneeCommentItems cls"]
    filter_kind_map_filter [of KNew d item_pr KThread items]
  by (simp add: collect_def)

text \<open>
  Claim C6. For a checkpoint \<open>cp\<close> and the nodes of a search, a node is among the new-item
  candidates exactly when it was fetched, the new-items flag is set and its creation time is
  strictly after \<open>cp\<close>; a node created exactly at \<open>cp\<close> is not a candidate. The
  candidates of kind new that reach the merge are the stored forms of these nodes.
\<close>

theorem is_new_strict:
  assumes "classifyNodes settings viewer cp nodes noCandidates = Inr cls"
  shows "(n \<in> set (newItems cls) \<longleftrightarrow>
            Some n \<in> set nodes \<and> enableNewItems settings \<and> cp < createdAt n) \<and>
         (createdAt n = cp \<longrightarrow> n \<notin> set (newItems cls)) \<and>
         filter (\<lambda>s. kind s = KNew) (collect d cls items) =
           List.map_filter (\<lambda>n. toStored d n KNew) (newItems cls)"
proof -
  from newItems_classifyNodes [OF assms]
  have eq: "newItems cls = filter (\<lambda>n. enableNewItems settings \<and> cp < createdAt n) (map the nodes)"
    and total: "None \<notin> set nodes"
    by (simp_all add: noCandidates_def)
  have "n \<in> set (newItems cls) \<longleftrightarrow>
      Some n \<in> set nodes \<and> enableNewItems settings \<and> cp < createdAt n"
    using Some_in_set_iff [OF total, of n] by (auto simp add: eq)
  then show ?thesis
    using new_candidates_collect [of d cls items] by auto
qed

theorem is_new_strict_witness:
  "classifyNodes exSettings ''me'' 1704067200000 [Some exIssue, Some exPullRequest] noCandidates =
     Inr \<lparr>newItems = [exIssue], mentionItems = [], assigneeCommentItems = [],
          updatedPrIds = [Some ''PR_1'']\<rparr> \<and>
   enableNewItems exSettings \<and> 1704067200000 < createdAt exIssue \<and>
   createdAt exPullRequest < 1704067200000 \<and>
   exIssue \<in> set [exIssue] \<and> exPullRequest \<notin> set [exIssue]"
proof -
  have run: "classifyNodes exSettings ''me'' 1704067200000 [Some exIssue, Some exPullRequest] noCandidates =
     Inr \<lparr>newItems = [exIssue], mentionItems = [], assigneeCommentItems = [],
          updatedPrIds = [Some ''PR_1'']\<rparr>"
    by (simp add: classifyNode_def noCandidates_def exSettings_def exIssue_def exPullRequest_def)
  have old: "createdAt exPullRequest < 1704067200000"
    by (simp add: exPullRequest_def)
  from is_new_strict [OF run, of exIssue] is_new_strict [OF run, of exPullRequest] run old
  show ?thesis
    by simp
qed


lemma nth_last: "xs \<noteq> [] \<Longrightarrow> xs ! (length xs - Suc 0) = last xs"
  by (simp add: last_conv_nth)

lemma hadMentionBefore_iff:
  "hadMentionBefore viewer cp cs \<longleftrightarrow>
     (\<exists>c\<in>set cs. rc_createdAt c \<le> cp \<and>
        (\<exists>b p s. rc_body c = Some b \<and> b = p @ ''@'' @ viewer @ s))"
proof -
  have "(case body_opt of None \<Rightarrow> False | Some b \<Rightarrow> includes_str b (''@'' @ viewer)) \<longleftrightarrow>
      (\<exists>b p s. body_opt = Some b \<and> b = p @ ''@'' @ viewer @ s)" for body_opt
    by (cases body_opt) (simp_all add: includes_str_iff)
  then show ?thesis
    unfolding hadMentionBefore_def Let_def list_ex_iff by simp
qed

lemma set_scanThreads:
  "set (scanThreads viewer cp pr ths acc) =
     set acc \<union>
     {\<lparr>item_pr = pr, item_thread = th, item_lastComment = last (thread_comments th)\<rparr> | th.
        th \<in> set ths \<and> \<not> isResolved th \<and> thread_comments th \<noteq> [] \<and>
        hadMentionBefore viewer cp (thread_comments th) \<and>
        cp < rc_createdAt (last (thread_comments th))}"
proof (induction ths arbitrary: acc)
  case Nil
  then show ?case by simp
next
  case (Cons t ths)
  show ?case
  proof (cases "\<not> isResolved t \<and> thread_comments t \<noteq> [] \<and>
        hadMentionBefore viewer cp (thread_comments t) \<and>
        cp < rc_createdAt (last (thread_comments t))")
    case True
    then have step: "scanThreads viewer cp pr (t # ths) acc =
        scanThreads viewer cp pr ths
          (acc @ [\<lparr>item_pr = pr, item_thread = t, item_lastComment = last (thread_comments t)\<rparr>])"
      by (simp add: Let_def nth_last)
    show ?thesis
      unfolding step Cons.IH using True by auto
  next
    case False
    then have step: "scanThreads viewer cp pr (t # ths) acc = scanThreads viewer cp pr ths acc"
      by (auto simp add: Let_def nth_last)
    show ?thesis
      unfolding step Cons.IH using False by auto
  qed
qed

lemma set_scanPullRequests:
  assumes "scanPullRequests viewer cp prs acc = Inr items"
  shows "set items = set acc \<union> (\<Union>pr\<in>{pr. Some pr \<in> set prs}. set (scanThreads viewer cp pr (reviewThreads pr) []))"
  using assms
proof (induction viewer cp prs acc arbitrary: items rule: scanPullRequests.induct)
  case (1 viewer lastChecked acc)
  then show ?case by simp
next
  case (2 viewer lastChecked rest acc)
  then show ?case by simp
next
  case (3 viewer lastChecked pr rest acc)
  from "3.prems" have "scanPullRequests viewer lastChecked rest
      (scanThreads viewer lastChecked pr (reviewThreads pr) acc) = Inr items"
    by simp
  from "3.IH" [OF this] show ?case
    by (auto simp add: set_scanThreads [of _ _ _ _ acc] set_scanThreads [of _ _ _ _ "[]"])
qed

lemma sorted_last_max:
  assumes "sorted (map f xs)" and "x \<in> set xs"
  shows "f x \<le> f (last xs)"
  using assms by (induction xs) (auto split: if_splits)

text \<open>
  Claim C5. For the pull requests of a thread lookup, a candidate for a pull request and
  one of its threads is produced exactly when the thread is unresolved, has a fetched
  comment, some comment created at or before the checkpoint contains the token \<open>@\<close> followed
  by the viewer login as a substring, and the last fetched comment was created strictly
  after the checkpoint; a resolved thread or a thread without fetched comments yields none.
  The comments are fetched in ascending order of creation, so the last one is the latest.
  The candidate is stored under the id of the pull request.
\<close>

theorem thread_candidate_rule:
  assumes "scanPullRequests viewer cp prs [] = Inr items"
  shows "((\<exists>it\<in>set items. item_pr it = pr \<and> item_thread it = th) \<longleftrightarrow>
            Some pr \<in> set prs \<and> th \<in> set (reviewThreads pr) \<and>
            \<not> isResolved th \<and> thread_comments th \<noteq> [] \<and>
            (\<exists>c\<in>set (thread_comments th). rc_createdAt c \<le> cp \<and>
               (\<exists>b p s. rc_body c = Some b \<and> b = p @ ''@'' @ viewer @ s)) \<and>
            cp < rc_createdAt (last (thread_comments th))) \<and>
         (sorted (map rc_createdAt (thread_comments th)) \<longrightarrow>
            (\<forall>c\<in>set (thread_comments th). rc_createdAt c \<le> rc_createdAt (last (thread_comments th)))) \<and>
         (\<forall>it\<in>set items. \<forall>i s. node_id (item_pr it) = Some i \<and>
              toStored d (item_pr it) KThread = Some s \<longrightarrow> nid s = ''thread:'' @ i \<and> kind s = KThread)"
proof (intro conjI)
  have items: "set items =
      (\<Union>pr\<in>{pr. Some pr \<in> set prs}. set (scanThreads viewer cp pr (reviewThreads pr) []))"
    using set_scanPullRequests [OF assms] by simp
  show "(\<exists>it\<in>set items. item_pr it = pr \<and> item_thread it = th) \<longleftrightarrow>
            Some pr \<in> set prs \<and> th \<in> set (reviewThreads pr) \<and>
            \<not> isResolved th \<and> thread_comments th \<noteq> [] \<and>
            (\<exists>c\<in>set (thread_comments th). rc_createdAt c \<le> cp \<and>
               (\<exists>b p s. rc_body c = Some b \<and> b = p @ ''@'' @ viewer @ s)) \<and>
            cp < rc_createdAt (last (thread_comments th))"
    unfolding items set_scanThreads hadMentionBefore_iff [symmetric] by fastforce
  show "sorted (map rc_createdAt (thread_comments th)) \<longrightarrow>
      (\<forall>c\<in>set (thread_comments th). rc_createdAt c \<le> rc_createdAt (last (thread_comments th)))"
    by (auto intro: sorted_last_max)
  show "\<forall>it\<in>set items. \<forall>i s. node_id (item_pr it) = Some i \<and>
      toStored d (item_pr it) KThread = Some s \<longrightarrow> nid s = ''thread:'' @ i \<and> kind s = KThread"
    using nid_toStored [of d _ KThread] kind_toStored [of d _ KThread]
    by fastforce
qed


theorem thread_candidate_rule_witness:
  "scanPullRequests ''me'' 1704067200000 [Some exReviewNode] [] =
     Inr [exThreadItem ''T1'', exThreadItem ''T2''] \<and>
   \<not> isResolved (exThread ''T1'') \<and> thread_comments (exThread ''T1'') \<noteq> [] \<and>
   1704067200000 < rc_createdAt (last (thread_comments (exThread ''T1''))) \<and>
   scanPullRequests ''me'' 1704153600000 [Some exReviewNode] [] = Inr []"
proof -
  have run: "scanPullRequests ''me'' 1704067200000 [Some exReviewNode] [] =
      Inr [exThreadItem ''T1'', exThreadItem ''T2'']"
    by (simp add: exReviewNode_def exThread_def exThreadItem_def hadMentionBefore_def Let_def)
  have late: "scanPullRequests ''me'' 1704153600000 [Some exReviewNode] [] = Inr []"
    by (simp add: exReviewNode_def exThread_def hadMentionBefore_def Let_def)
  have "\<exists>it\<in>set [exThreadItem ''T1'', exThreadItem ''T2''].
      item_pr it = exReviewNode \<and> item_thread it = exThread ''T1''"
    by (simp add: exThreadItem_def)
  with thread_candidate_rule [OF run, of exReviewNode "exThread ''T1''"]
  have "\<not> isResolved (exThread ''T1'') \<and> thread_comments (exThread ''T1'') \<noteq> [] \<and>
      1704067200000 < rc_createdAt (last (thread_comments (exThread ''T1'')))"
    by blast
  with run late show ?thesis
    by blast
qed

section \<open>Properties of the watch cycle\<close>

lemma ensureViewerLogin_keeps:
  assumes "ensureViewerLogin env w = (r, w1)"
  shows "lastCheckedAt (runtimeState w1) = lastCheckedAt (runtimeState w)"
    and "localStorage w1 = localStorage w"
    and "set (calls w) \<subseteq> set (calls w1)"
  using assms
  by (auto simp add: ensureViewerLogin_def Let_def split: if_splits sum.splits)

lemma threadStage_keeps:
  assumes "threadStage env settings viewer cp cls w = (r, w3)"
  shows "runtimeState w3 = runtimeState w"
    and "localStorage w3 = localStorage w"
    and "set (calls w) \<subseteq> set (calls w3)"
  using assms
  by (auto simp add: threadStage_def Let_def split: if_splits sum.splits)

lemma mergeStore_keeps:
  "runtimeState (mergeStore cs w) = runtimeState w"
  "calls (mergeStore cs w) = calls w"
  "stored_lastCheckedAt (localStorage (mergeStore cs w)) = stored_lastCheckedAt (localStorage w)"
  by (simp_all add: mergeStore_def setBadge_def Let_def split: prod.splits)

lemma saveLastCheckedAt_sets:
  "lastCheckedAt (runtimeState (saveLastCheckedAt t w)) = Some t"
  "stored_lastCheckedAt (localStorage (saveLastCheckedAt t w)) = Some t"
  "notifications (localStorage (saveLastCheckedAt t w)) = notifications (localStorage w)"
  "badgeCount (localStorage (saveLastCheckedAt t w)) = badgeCount (localStorage w)"
  "calls (saveLastCheckedAt t w) = calls w"
  by (simp_all add: saveLastCheckedAt_def)

text \<open>The ways a cycle with a complete configuration can end.\<close>

lemma runWatchCycle_cases:
  assumes "loadSettings (syncStorage w) = Some settings" and "repos settings \<noteq> []"
  obtains
    (identity_fails) e w1 where
      "ensureViewerLogin env w = (Inl e, w1)"
      "runWatchCycle env w = (Inl e, w1)"
  | (search_fails) viewer w1 e where
      "ensureViewerLogin env w = (Inr viewer, w1)"
      "searchResponse env
         (buildRepoQuery (repos settings) (toISOString env (checkpointOf (runtimeState w))) viewer) = Inl e"
      "runWatchCycle env w =
         (Inl e, w1\<lparr>calls := calls w1 @
            [WatchIssuesAndPRs
               (buildRepoQuery (repos settings) (toISOString env (checkpointOf (runtimeState w))) viewer)
               (toISOString env (checkpointOf (runtimeState w))) viewer]\<rparr>)"
  | (classification_fails) viewer w1 nodes e where
      "ensureViewerLogin env w = (Inr viewer, w1)"
      "searchResponse env
         (buildRepoQuery (repos settings) (toISOString env (checkpointOf (runtimeState w))) viewer) = Inr nodes"
      "classifyNodes settings viewer (checkpointOf (runtimeState w)) nodes noCandidates = Inl e"
      "runWatchCycle env w =
         (Inl e, w1\<lparr>calls := calls w1 @
            [WatchIssuesAndPRs
               (buildRepoQuery (repos settings) (toISOString env (checkpointOf (runtimeState w))) viewer)
               (toISOString env (checkpointOf (runtimeState w))) viewer]\<rparr>)"
  | (threads_fail) viewer w1 nodes cls e w3 where
      "ensureViewerLogin env w = (Inr viewer, w1)"
      "searchResponse env
         (buildRepoQuery (repos settings) (toISOString env (checkpointOf (runtimeState w))) viewer) = Inr nodes"
      "classifyNodes settings viewer (checkpointOf (runtimeState w)) nodes noCandidates = Inr cls"
      "threadStage env settings viewer (checkpointOf (runtimeState w)) cls
         (w1\<lparr>calls := calls w1 @
            [WatchIssuesAndPRs
               (buildRepoQuery (repos settings) (toISOString env (checkpointOf (runtimeState w))) viewer)
               (toISOString env (checkpointOf (runtimeState w))) viewer]\<rparr>) = (Inl e, w3)"
      "runWatchCycle env w = (Inl e, w3)"
  | (merge_fails) viewer w1 nodes cls items w3 e where
      "ensureViewerLogin env w = (Inr viewer, w1)"
      "searchResponse env
         (buildRepoQuery (repos settings) (toISOString env (checkpointOf (runtimeState w))) viewer) = Inr nodes"
      "classifyNodes settings viewer (checkpointOf (runtimeState w)) nodes noCandidates = Inr cls"
      "threadStage env settings viewer (checkpointOf (runtimeState w)) cls
         (w1\<lparr>calls := calls w1 @
            [WatchIssuesAndPRs
               (buildRepoQuery (repos settings) (toISOString env (checkpointOf (runtimeState w))) viewer)
               (toISOString env (checkpointOf (runtimeState w))) viewer]\<rparr>) = (Inr items, w3)"
      "mergeStep env (collect (clock env) cls items) w3 = Inl e"
      "runWatchCycle env w = (Inl e, w3)"
  | (completes) viewer w1 nodes cls items w3 where
      "ensureViewerLogin env w = (Inr viewer, w1)"
      "searchResponse env
         (buildRepoQuery (repos settings) (toISOString env (checkpointOf (runtimeState w))) viewer) = Inr nodes"
      "classifyNodes settings viewer (checkpointOf (runtimeState w)) nodes noCandidates = Inr cls"
      "threadStage env settings viewer (checkpointOf (runtimeState w)) cls
         (w1\<lparr>calls := calls w1 @
            [WatchIssuesAndPRs
               (buildRepoQuery (repos settings) (toISOString env (checkpointOf (runtimeState w))) viewer)
               (toISOString env (checkpointOf (runtimeState w))) viewer]\<rparr>) = (Inr items, w3)"
      "mergeStep env (collect (clock env) cls items) w3 =
         Inr (mergeStore (collect (clock env) cls items) w3)"
      "runWatchCycle env w =
         (Inr (), saveLastCheckedAt (clock env) (mergeStore (collect (clock env) cls items) w3))"
proof -
  from assms(1) have pat: "pat settings \<noteq> []"
    by (auto simp add: loadSettings_def Let_def split: ReposValue.splits if_splits)
  obtain r1 w1 where v: "ensureViewerLogin env w = (r1, w1)"
    by (cases "ensureViewerLogin env w")
  show thesis
  proof (cases r1)
    case (Inl e)
    with v assms pat show thesis
      by (intro identity_fails [of e w1]) (simp_all add: runWatchCycle_def)
  next
    case (Inr viewer)
    let ?q = "buildRepoQuery (repos settings) (toISOString env (checkpointOf (runtimeState w))) viewer"
    let ?w2 = "w1\<lparr>calls := calls w1 @
        [WatchIssuesAndPRs ?q (toISOString env (checkpointOf (runtimeState w))) viewer]\<rparr>"
    show thesis
    proof (cases "searchResponse env ?q")
      case (Inl e)
      with v Inr assms pat show thesis
        by (intro search_fails [of viewer w1 e]) (simp_all add: runWatchCycle_def Let_def)
    next
      case nodes: (Inr nodes)
      show thesis
      proof (cases "classifyNodes settings viewer (checkpointOf (runtimeState w)) nodes noCandidates")
        case (Inl e)
        with v Inr nodes assms pat show thesis
          by (intro classification_fails [of viewer w1 nodes e]) (simp_all add: runWatchCycle_def Let_def)
      next
        case cls: (Inr cls)
        obtain r3 w3 where t: "threadStage env settings viewer (checkpointOf (runtimeState w)) cls ?w2 = (r3, w3)"
          by (cases "threadStage env settings viewer (checkpointOf (runtimeState w)) cls ?w2")
        show thesis
        proof (cases r3)
          case (Inl e)
          with v Inr nodes cls t assms pat show thesis
            by (intro threads_fail [of viewer w1 nodes cls e w3]) (simp_all add: runWatchCycle_def Let_def)
        next
          case items: (Inr items)
          show thesis
          proof (cases "mergeStep env (collect (clock env) cls items) w3")
            case (Inl e)
            with v Inr nodes cls t items assms pat show thesis
              by (intro merge_fails [of viewer w1 nodes cls items w3 e])
                (simp_all add: runWatchCycle_def Let_def)
          next
            case merged: (Inr w4)
            then have w4: "w4 = mergeStore (collect (clock env) cls items) w3"
              by (simp add: mergeStep_def split: if_splits)
            with merged v Inr nodes cls t items assms pat show thesis
              by (intro completes [of viewer w1 nodes cls items w3])
                (simp_all add: runWatchCycle_def Let_def)
          qed
        qed
      qed
    qed
  qed
qed


text \<open>
  Claim C8. With a missing or empty credential, or with a missing, empty or malformed
  target-repo list, \<^verbatim>\<open>runWatchCycle\<close> resolves and leaves the whole state as it was:
  no remote call is issued, and checkpoint, notification list and badge counter are unchanged.
\<close>

theorem config_incomplete_noop:
  assumes "sync_pat (syncStorage w) = None \<or> sync_pat (syncStorage w) = Some [] \<or>
           sync_repos (syncStorage w) = None \<or> sync_repos (syncStorage w) = Some (ReposArray []) \<or>
           sync_repos (syncStorage w) = Some NotAnArray"
  shows "runWatchCycle env w = (Inr (), w) \<and>
         calls (snd (runWatchCycle env w)) = calls w \<and>
         runtimeState (snd (runWatchCycle env w)) = runtimeState w \<and>
         localStorage (snd (runWatchCycle env w)) = localStorage w"
proof -
  have "runWatchCycle env w = (Inr (), w)"
    using assms
    by (auto simp add: runWatchCycle_def loadSettings_def Let_def
        split: option.splits ReposValue.splits)
  then show ?thesis
    by simp
qed

theorem config_incomplete_noop_witness:
  "sync_repos (syncStorage exWorldNoRepos) = Some (ReposArray []) \<and>
   sync_pat (syncStorage exWorldNoRepos) = Some ''ghp_token'' \<and>
   runWatchCycle exEnv exWorldNoRepos = (Inr (), exWorldNoRepos) \<and>
   calls (snd (runWatchCycle exEnv exWorldNoRepos)) = []"
proof -
  have a: "sync_repos (syncStorage exWorldNoRepos) = Some (ReposArray [])"
    by (simp add: exWorldNoRepos_def)
  have b: "sync_pat (syncStorage exWorldNoRepos) = Some ''ghp_token''"
    by (simp add: exWorldNoRepos_def exSync_def)
  have c: "calls exWorldNoRepos = []"
    by (simp add: exWorldNoRepos_def exWorld_def)
  from config_incomplete_noop [of exWorldNoRepos exEnv] a b c show ?thesis
    by simp
qed

lemma loadSettings_exSync: "loadSettings exSync = Some exSettings"
  by (simp add: loadSettings_def exSync_def exSettings_def DEFAULT_INTERVAL_MINUTES_def)

lemmas cycle_defs =
  runWatchCycle_def loadSettings_def ensureViewerLogin_def classifyNode_def noCandidates_def
  threadStage_def hadMentionBefore_def collect_def toStored_def mergeStep_def mergeStore_def
  saveLastCheckedAt_def setBadge_def List.map_filter_def checkpointOf_def epoch_def clock_def
  Let_def

lemmas example_defs =
  exEnv_def exEnvFailing_def exEnvSelected_def exEnvClockBehind_def exEnvMergeFails_def
  exWorld_def exWorldRestarted_def exSync_def exStore_def
  exPullRequest_def exFetchedPull_def exIssue_def exFetchedIssue_def exReviewNode_def exThread_def

text \<open>
  Claim C3 says that the checkpoint after a completed cycle is the timestamp captured at
  the start and hence not below the checkpoint before. The code stores the clock reading
  without comparing it with the checkpoint it replaces: with a clock that reads an instant
  before the checkpoint, the cycle completes and the checkpoint goes down.
\<close>

theorem checkpoint_lowered_counterexample:
  "fst (runWatchCycle exEnvClockBehind exWorld) = Inr () \<and>
   checkpointOf (runtimeState exWorld) = 1704067200000 \<and>
   checkpointOf (runtimeState (snd (runWatchCycle exEnvClockBehind exWorld))) = 1000 \<and>
   \<not> checkpointOf (runtimeState exWorld)
       \<le> checkpointOf (runtimeState (snd (runWatchCycle exEnvClockBehind exWorld)))"
  by (simp add: cycle_defs example_defs)

text \<open>
  Claim C3, amended. For a cycle that gets past the configuration check: when it completes,
  the checkpoint in the runtime state and in storage is the clock reading taken at the start
  of the cycle, before the first remote call, whatever the clock reads later in the cycle;
  it is at or above the checkpoint before the cycle exactly when that reading is. When the
  cycle fails (identity resolution, item search, classification, thread lookup or store
  merge), the checkpoint is unchanged.
\<close>

theorem checkpoint_evolution:
  assumes "loadSettings (syncStorage w) = Some settings" and "repos settings \<noteq> []"
    and "runWatchCycle env w = (r, w')"
  shows "(r = Inr () \<longrightarrow>
            lastCheckedAt (runtimeState w') = Some (clockAfter env 0) \<and>
            stored_lastCheckedAt (localStorage w') = Some (clockAfter env 0) \<and>
            checkpointOf (runtimeState w') = clockAfter env 0 \<and>
            (checkpointOf (runtimeState w) \<le> checkpointOf (runtimeState w') \<longleftrightarrow>
               checkpointOf (runtimeState w) \<le> clockAfter env 0)) \<and>
         (\<forall>e. r = Inl e \<longrightarrow>
            lastCheckedAt (runtimeState w') = lastCheckedAt (runtimeState w) \<and>
            stored_lastCheckedAt (localStorage w') = stored_lastCheckedAt (localStorage w) \<and>
            checkpointOf (runtimeState w') = checkpointOf (runtimeState w))"
  using assms(1,2)
proof (cases rule: runWatchCycle_cases [where env = env])
  case (identity_fails e w1)
  with assms(3) ensureViewerLogin_keeps [OF identity_fails(1)] show ?thesis
    by (auto simp add: checkpointOf_def)
next
  case (search_fails viewer w1 e)
  with assms(3) ensureViewerLogin_keeps [OF search_fails(1)] show ?thesis
    by (auto simp add: checkpointOf_def)
next
  case (classification_fails viewer w1 nodes e)
  with assms(3) ensureViewerLogin_keeps [OF classification_fails(1)] show ?thesis
    by (auto simp add: checkpointOf_def)
next
  case (threads_fail viewer w1 nodes cls e w3)
  with assms(3) ensureViewerLogin_keeps [OF threads_fail(1)] threadStage_keeps [OF threads_fail(4)]
  show ?thesis
    by (auto simp add: checkpointOf_def)
next
  case (merge_fails viewer w1 nodes cls items w3 e)
  with assms(3) ensureViewerLogin_keeps [OF merge_fails(1)] threadStage_keeps [OF merge_fails(4)]
  show ?thesis
    by (auto simp add: checkpointOf_def)
next
  case (completes viewer w1 nodes cls items w3)
  with assms(3) show ?thesis
    by (auto simp add: checkpointOf_def saveLastCheckedAt_sets clock_def)
qed

theorem checkpoint_evolution_witness:
  "loadSettings (syncStorage exWorld) = Some exSettings \<and> repos exSettings \<noteq> [] \<and>
   checkpointOf (runtimeState exWorld) = 1704067200000 \<and>
   clockAfter exEnvSelected 0 = 1704240000000 \<and> clockAfter exEnvSelected 1 = 1704240001000 \<and>
   fst (runWatchCycle exEnvSelected exWorld) = Inr () \<and>
   lastCheckedAt (runtimeState (snd (runWatchCycle exEnvSelected exWorld))) = Some 1704240000000 \<and>
   stored_lastCheckedAt (localStorage (snd (runWatchCycle exEnvSelected exWorld))) =
     Some 1704240000000 \<and>
   fst (runWatchCycle exEnvFailing exWorld) = Inl RemoteFailure \<and>
   lastCheckedAt (runtimeState (snd (runWatchCycle exEnvFailing exWorld))) = Some 1704067200000 \<and>
   stored_lastCheckedAt (localStorage (snd (runWatchCycle exEnvFailing exWorld))) =
     Some 1704067200000 \<and>
   fst (runWatchCycle exEnvMergeFails exWorld) = Inl TypeError \<and>
   lastCheckedAt (runtimeState (snd (runWatchCycle exEnvMergeFails exWorld))) = Some 1704067200000 \<and>
   stored_lastCheckedAt (localStorage (snd (runWatchCycle exEnvMergeFails exWorld))) =
     Some 1704067200000"
proof -
  have ls: "loadSettings (syncStorage exWorld) = Some exSettings"
    by (simp add: exWorld_def loadSettings_exSync)
  have rs: "repos exSettings \<noteq> []"
    by (simp add: exSettings_def)
  have ok: "fst (runWatchCycle exEnvSelected exWorld) = Inr ()"
    by (simp add: cycle_defs example_defs)
  have bad: "fst (runWatchCycle exEnvFailing exWorld) = Inl RemoteFailure"
    by (simp add: cycle_defs example_defs)
  have worse: "fst (runWatchCycle exEnvMergeFails exWorld) = Inl TypeError"
    by (simp add: cycle_defs example_defs)
  have run_ok: "runWatchCycle exEnvSelected exWorld =
      (Inr (), snd (runWatchCycle exEnvSelected exWorld))"
    using ok by (simp add: prod_eq_iff)
  have run_bad: "runWatchCycle exEnvFailing exWorld =
      (Inl RemoteFailure, snd (runWatchCycle exEnvFailing exWorld))"
    using bad by (simp add: prod_eq_iff)
  have run_worse: "runWatchCycle exEnvMergeFails exWorld =
      (Inl TypeError, snd (runWatchCycle exEnvMergeFails exWorld))"
    using worse by (simp add: prod_eq_iff)
  have before: "lastCheckedAt (runtimeState exWorld) = Some 1704067200000"
    "stored_lastCheckedAt (localStorage exWorld) = Some 1704067200000"
    "checkpointOf (runtimeState exWorld) = 1704067200000"
    by (simp_all add: exWorld_def exStore_def checkpointOf_def)
  have now: "clockAfter exEnvSelected 0 = 1704240000000"
    "clockAfter exEnvSelected 1 = 1704240001000"
    by (simp_all add: exEnvSelected_def exEnv_def)
  from checkpoint_evolution [OF ls rs run_ok] checkpoint_evolution [OF ls rs run_bad]
    checkpoint_evolution [OF ls rs run_worse] ls rs ok bad worse before now
  show ?thesis
    by simp
qed

lemma mem_newItems:
  assumes "classifyNodes settings viewer cp nodes noCandidates = Inr cls"
  shows "n \<in> set (newItems cls) \<longleftrightarrow>
           Some n \<in> set nodes \<and> enableNewItems settings \<and> cp < createdAt n"
proof -
  from newItems_classifyNodes [OF assms]
  have eq: "newItems cls = filter (\<lambda>n. enableNewItems settings \<and> cp < createdAt n) (map the nodes)"
    and total: "None \<notin> set nodes"
    by (simp_all add: noCandidates_def)
  show ?thesis
    using Some_in_set_iff [OF total, of n] by (auto simp add: eq)
qed

lemma mem_map_filter: "x \<in> set xs \<Longrightarrow> f x = Some y \<Longrightarrow> y \<in> set (List.map_filter f xs)"
  by (induction xs) (auto split: option.splits)

lemma new_candidate_collected:
  assumes "n \<in> set (newItems cls)" and "toStored d n KNew = Some s"
  shows "s \<in> set (collect d cls items)"
  using mem_map_filter [OF assms(1), of "\<lambda>n. toStored d n KNew" s] assms(2)
  by (simp add: collect_def)

text \<open>
  Claim C10. When the runtime state holds no checkpoint, whatever was persisted in storage,
  a cycle that completes has worked with the epoch as its lower bound: the search was
  issued with the epoch in its query, the new-item candidates are exactly the fetched nodes
  created strictly after the epoch (when the new-items flag is set), and each of them that
  has a stored form is in the persisted list after the cycle.
\<close>

theorem first_run_uses_epoch:
  assumes "lastCheckedAt (runtimeState w) = None"
    and "loadSettings (syncStorage w) = Some settings" and "repos settings \<noteq> []"
    and "runWatchCycle env w = (Inr (), w')"
  shows "epoch = 0 \<and> checkpointOf (runtimeState w) = epoch \<and>
         (\<exists>viewer nodes cls.
            WatchIssuesAndPRs (buildRepoQuery (repos settings) (toISOString env epoch) viewer)
              (toISOString env epoch) viewer \<in> set (calls w') \<and>
            searchResponse env (buildRepoQuery (repos settings) (toISOString env epoch) viewer) =
              Inr nodes \<and>
            classifyNodes settings viewer epoch nodes noCandidates = Inr cls \<and>
            (\<forall>n. n \<in> set (newItems cls) \<longleftrightarrow>
                   Some n \<in> set nodes \<and> enableNewItems settings \<and> epoch < createdAt n) \<and>
            (\<forall>n s. n \<in> set (newItems cls) \<and> toStored (clock env) n KNew = Some s \<longrightarrow>
                   nid s \<in> nid ` set (notifications (localStorage w'))))"
proof -
  have cp: "checkpointOf (runtimeState w) = epoch"
    using assms(1) by (simp add: checkpointOf_def)
  from assms(2,3) show ?thesis
  proof (cases rule: runWatchCycle_cases [where env = env])
    case (identity_fails e w1)
    with assms(4) show ?thesis by simp
  next
    case (search_fails viewer w1 e)
    with assms(4) show ?thesis by simp
  next
    case (classification_fails viewer w1 nodes e)
    with assms(4) show ?thesis by simp
  next
    case (threads_fail viewer w1 nodes cls e w3)
    with assms(4) show ?thesis by simp
  next
    case (merge_fails viewer w1 nodes cls items w3 e)
    with assms(4) show ?thesis by simp
  next
    case (completes viewer w1 nodes cls items w3)
    let ?q = "buildRepoQuery (repos settings) (toISOString env epoch) viewer"
    from completes(6) assms(4)
    have w': "w' = saveLastCheckedAt (clock env) (mergeStore (collect (clock env) cls items) w3)"
      by simp
    have "WatchIssuesAndPRs ?q (toISOString env epoch) viewer \<in> set (calls w3)"
      using threadStage_keeps(3) [OF completes(4)] by (auto simp add: cp)
    then have call: "WatchIssuesAndPRs ?q (toISOString env epoch) viewer \<in> set (calls w')"
      by (simp add: w' saveLastCheckedAt_sets mergeStore_keeps)
    have search: "searchResponse env ?q = Inr nodes"
      using completes(2) by (simp add: cp)
    have cls: "classifyNodes settings viewer epoch nodes noCandidates = Inr cls"
      using completes(3) by (simp add: cp)
    have new: "\<forall>n. n \<in> set (newItems cls) \<longleftrightarrow>
        Some n \<in> set nodes \<and> enableNewItems settings \<and> epoch < createdAt n"
      using mem_newItems [OF cls] by simp
    have stored: "\<forall>n s. n \<in> set (newItems cls) \<and> toStored (clock env) n KNew = Some s \<longrightarrow>
        nid s \<in> nid ` set (notifications (localStorage w'))"
    proof (intro allI impI)
      fix n s
      assume "n \<in> set (newItems cls) \<and> toStored (clock env) n KNew = Some s"
      then have "s \<in> set (collect (clock env) cls items)"
        by (auto intro: new_candidate_collected)
      then have "nid s \<in> nid ` set (notifications (localStorage
          (mergeStore (collect (clock env) cls items) w3)))"
        by (rule merged_candidate_present)
      then show "nid s \<in> nid ` set (notifications (localStorage w'))"
        by (simp add: w' saveLastCheckedAt_sets)
    qed
    from cp call search cls new stored show ?thesis
      by (intro conjI exI [of _ viewer] exI [of _ nodes] exI [of _ cls]) (simp_all add: epoch_def)
  qed
qed

theorem first_run_uses_epoch_witness:
  "lastCheckedAt (runtimeState exWorldRestarted) = None \<and>
   stored_lastCheckedAt (localStorage exWorldRestarted) = Some 1704067200000 \<and>
   createdAt exPullRequest = 1703980800000 \<and>
   fst (runWatchCycle exEnv exWorldRestarted) = Inr () \<and>
   checkpointOf (runtimeState exWorldRestarted) = 0 \<and>
   map nid (notifications (localStorage (snd (runWatchCycle exEnv exWorldRestarted)))) =
     [''new:I_1'', ''new:PR_1'']"
proof -
  have none: "lastCheckedAt (runtimeState exWorldRestarted) = None"
    by (simp add: exWorldRestarted_def)
  have ls: "loadSettings (syncStorage exWorldRestarted) = Some exSettings"
    by (simp add: exWorldRestarted_def exWorld_def loadSettings_exSync)
  have rs: "repos exSettings \<noteq> []"
    by (simp add: exSettings_def)
  have ok: "fst (runWatchCycle exEnv exWorldRestarted) = Inr ()"
    by (simp add: cycle_defs example_defs)
  have run: "runWatchCycle exEnv exWorldRestarted =
      (Inr (), snd (runWatchCycle exEnv exWorldRestarted))"
    using ok by (simp add: prod_eq_iff)
  have persisted: "stored_lastCheckedAt (localStorage exWorldRestarted) = Some 1704067200000"
    by (simp add: exWorldRestarted_def exWorld_def exStore_def)
  have created: "createdAt exPullRequest = 1703980800000"
    by (simp add: exPullRequest_def)
  have ids: "map nid (notifications (localStorage (snd (runWatchCycle exEnv exWorldRestarted)))) =
      [''new:I_1'', ''new:PR_1'']"
    by (simp add: cycle_defs example_defs)
  from first_run_uses_epoch [OF none ls rs run] none persisted created ok ids
  show ?thesis
    by simp
qed

section \<open>Dedup-key uniqueness\<close>











lemma kindString_inject:
  "kindString k @ '':'' @ i = kindString k @ '':'' @ j \<Longrightarrow> i = j"
  by simp

















end
